theory Spec2Isabelle
  imports Complex_Main
begin

section \<open>Numbers, errors and the library calls of instrument.py\<close>

text \<open>
  Samples, frequencies and sample rates are Python floats (doubles); they are modelled as
  reals. The arithmetic on samples (\<open>+\<close>, \<open>*\<close>, \<open>/\<close>, \<open>np.sin\<close>) is exact here. Where the
  program turns a double into an integer (the size of the ring buffer, the lengths of the
  ADSR segments) or uses it as a constant coefficient (\<open>peak\<close>, \<open>sustain\<close>), the
  rounding decides the result, and the model rounds as the program does: \<open>binary64\<close> is
  IEEE 754 rounding to the nearest double, ties to even. NaN is outside the model; a value
  of magnitude \<open>2^1024\<close> or more stands for an infinity.
  Durations are Python integers: \<open>int\<close>. Every exception the source can raise is a
  value of \<open>error\<close>, and a function that can raise returns \<open>error + 'a\<close>.
\<close>

datatype error =
    ZeroDivisionError   \<comment> \<open>\<open>/\<close> with a zero divisor\<close>
  | ValueError          \<comment> \<open>numpy: a negative number of samples or dimensions, operands that do not broadcast\<close>
  | IndexError          \<comment> \<open>reading or writing index 0 of an empty array\<close>
  | Blocked             \<comment> \<open>\<open>queue.Queue.get\<close> on an empty or \<open>put\<close> on a full queue never returns\<close>
  | OverflowError       \<comment> \<open>\<open>int(x)\<close> on an infinite float\<close>
  | MemoryError         \<comment> \<open>numpy: an array the machine cannot allocate\<close>

text \<open>Python's \<open>int(x)\<close> on a float: truncation toward zero.\<close>

definition py_int :: "real \<Rightarrow> int" where
  "py_int x = (if 0 \<le> x then \<lfloor>x\<rfloor> else \<lceil>x\<rceil>)"

text \<open>Python's true division \<open>a / b\<close>, exact, for the quotients that become samples or
  times; \<open>truediv_double\<close> below is the rounded one.\<close>

definition truediv :: "real \<Rightarrow> real \<Rightarrow> error + real" where
  "truediv a b = (if b = 0 then Inl ZeroDivisionError else Inr (a / b))"

text \<open>
  Rounding to the nearest double: 53 significant bits, exponent at least \<open>-1022\<close>
  (below it the spacing stays that of the subnormal numbers), ties to the even
  significand. A float literal of the source, such as \<open>0.1\<close>, is \<open>binary64 0.1\<close>.
\<close>

definition round_half_even :: "real \<Rightarrow> int" where
  "round_half_even y =
     (let f = \<lfloor>y\<rfloor>; r = y - of_int f in
      if r < 1 / 2 then f else if 1 / 2 < r then f + 1
      else if even f then f else f + 1)"

definition binary64 :: "real \<Rightarrow> real" where
  "binary64 x =
     (if x = 0 then 0
      else let e = max \<lfloor>log 2 \<bar>x\<bar>\<rfloor> (- 1022); ulp = 2 powr (of_int e - 52)
           in of_int (round_half_even (x / ulp)) * ulp)"

text \<open>
  The operations on doubles whose rounding the model keeps: \<open>a * b\<close>, \<open>a / b\<close> (the
  exact result rounded; a quotient too large becomes an infinity, without an exception)
  and \<open>int(x)\<close>, which truncates and raises on an infinity.
\<close>

definition mul_double :: "real \<Rightarrow> real \<Rightarrow> real" where
  "mul_double a b = binary64 (a * b)"

definition truediv_double :: "real \<Rightarrow> real \<Rightarrow> error + real" where
  "truediv_double a b = (if b = 0 then Inl ZeroDivisionError else Inr (binary64 (a / b)))"

definition int_of_double :: "real \<Rightarrow> error + int" where
  "int_of_double x = (if 2 ^ 1024 \<le> \<bar>x\<bar> then Inl OverflowError else Inr (py_int x))"

text \<open>
  \<open>np.linspace(start, stop, num)\<close> with numpy's default \<open>endpoint=True\<close>: \<open>num\<close>
  evenly spaced points from \<open>start\<close> to \<open>stop\<close>, both included; one point is
  \<open>start\<close> alone, none is the empty array, a negative \<open>num\<close> raises.
\<close>

definition linspace :: "real \<Rightarrow> real \<Rightarrow> int \<Rightarrow> error + real list" where
  "linspace start stop num =
     (if num < 0 then Inl ValueError
      else if num = 1 then Inr [start]
      else Inr (map (\<lambda>i. start + real i * ((stop - start) / (real_of_int num - 1)))
                  [0..<nat num]))"

text \<open>\<open>np.full(n, v)\<close>.\<close>

definition full_array :: "int \<Rightarrow> real \<Rightarrow> error + real list" where
  "full_array n v = (if n < 0 then Inl ValueError else Inr (replicate (nat n) v))"

text \<open>
  \<open>a *= b\<close> on one-dimensional arrays: elementwise when the lengths agree, \<open>b\<close> of
  length one is broadcast, anything else raises.
\<close>

definition imul :: "real list \<Rightarrow> real list \<Rightarrow> error + real list" where
  "imul a b =
     (if length b = length a then Inr (map2 (*) a b)
      else if length b = 1 then Inr (map (\<lambda>x. x * hd b) a)
      else Inl ValueError)"

text \<open>
  The global random generator of numpy is a state the program reads and advances. Its
  state is the stream of the draws to come; \<open>np.random.standard_normal(n)\<close> takes the
  next \<open>n\<close> of them. The array it fills has to be allocated: numpy refuses a size whose
  bytes (8 for each double) do not fit its signed 64-bit index type, from \<open>2^60\<close> cells
  on, with ValueError, and below that raises MemoryError when the machine cannot provide
  the array. What the machine can provide is not in the source: it is the parameter
  \<open>capacity\<close>, the largest number of cells it can allocate.
\<close>

type_synonym rng = "nat \<Rightarrow> real"

definition standard_normal :: "nat \<Rightarrow> rng \<Rightarrow> int \<Rightarrow> error + (real list \<times> rng)" where
  "standard_normal capacity g n =
     (if n < 0 then Inl ValueError
      else if 2 ^ 60 \<le> n then Inl ValueError
      else if int capacity < n then Inl MemoryError
      else Inr (map g [0..<nat n], \<lambda>k. g (k + nat n)))"

text \<open>
  \<open>queue.Queue(maxsize)\<close>, used from one thread: a FIFO with the oldest item first.
  \<open>full\<close> is \<open>0 < maxsize <= qsize\<close>; \<open>get\<close> on an empty queue and \<open>put\<close> on
  a full one wait for another thread, which never comes.
\<close>

record queue =
  maxsize :: nat
  items :: "real list"

definition Queue :: "nat \<Rightarrow> queue" where
  "Queue n = \<lparr>maxsize = n, items = []\<rparr>"

definition full :: "queue \<Rightarrow> bool" where
  "full q = (0 < maxsize q \<and> maxsize q \<le> length (items q))"

definition get :: "queue \<Rightarrow> error + (real \<times> queue)" where
  "get q = (case items q of [] \<Rightarrow> Inl Blocked | x # xs \<Rightarrow> Inr (x, q\<lparr>items := xs\<rparr>))"

definition put :: "queue \<Rightarrow> real \<Rightarrow> error + queue" where
  "put q x = (if full q then Inl Blocked else Inr (q\<lparr>items := items q @ [x]\<rparr>))"

section \<open>Instrument.duplicateChannel\<close>

text \<open>
  \<open>np.float32\<close> narrows a double to single precision. The function is numpy's, so
  \<open>duplicateChannel\<close> takes it as the parameter \<open>float32\<close>; \<open>binary32\<close> below is
  the IEEE 754 rounding it performs (to nearest, ties to even, 24 significant bits,
  exponent at least \<open>-126\<close>), for values in the finite range of the format.
\<close>

definition binary32 :: "real \<Rightarrow> real" where
  "binary32 x =
     (if x = 0 then 0
      else let e = max \<lfloor>log 2 \<bar>x\<bar>\<rfloor> (- 126); ulp = 2 powr (of_int e - 23)
           in of_int (round_half_even (x / ulp)) * ulp)"

definition duplicateChannel :: "(real \<Rightarrow> real) \<Rightarrow> real list \<Rightarrow> (real \<times> real) list" where
  "duplicateChannel float32 channel =
     foldl (\<lambda>newSamples sample.
              let sample32 = float32 (sample / 2) in newSamples @ [(sample32, sample32)])
           [] channel"

section \<open>Beep.getNote\<close>

definition Beep_getNote :: "real \<Rightarrow> int \<Rightarrow> real \<Rightarrow> error + real list" where
  "Beep_getNote frequency duration sampleRate =
     (case truediv (of_int duration) sampleRate of
        Inl e \<Rightarrow> Inl e
      | Inr seconds \<Rightarrow>
          (case linspace 0 seconds duration of
             Inl e \<Rightarrow> Inl e
           | Inr time \<Rightarrow> Inr (map (\<lambda>t. sin (frequency * 2 * pi * t)) time)))"

section \<open>AcousticGuitar.getBaseStringSound and getNote\<close>

text \<open>
  The variables of the loop of \<open>getBaseStringSound\<close>. The source's \<open>last\<close> is
  \<open>last_sample\<close> here (\<open>last\<close> is a list function of HOL).
\<close>

record ks_state =
  samples :: "real list"
  buffer :: "real list"
  last_sample :: real
  delayLine :: queue
  bufferCounter :: nat

text \<open>
  The feedback branch of the loop body (\<open>if delayLine.full(): ...\<close>): it returns the
  new \<open>current\<close> and the queue after the \<open>get\<close>.
\<close>

definition feedback :: "queue \<Rightarrow> real \<Rightarrow> error + (real \<times> queue)" where
  "feedback q current =
     (if full q then
        (case get q of
           Inl e \<Rightarrow> Inl e
         | Inr (delayed, q') \<Rightarrow> Inr ((current + delayed * 0.999) / 2, q'))
      else Inr (current, q))"

text \<open>One iteration of \<open>for i in range(0, duration)\<close>.\<close>

definition tick :: "ks_state \<Rightarrow> error + ks_state" where
  "tick s =
     (if length (buffer s) \<le> bufferCounter s then Inl IndexError
      else
        (case feedback (delayLine s) ((last_sample s + buffer s ! bufferCounter s) / 2) of
           Inl e \<Rightarrow> Inl e
         | Inr (current, q) \<Rightarrow>
             (case put q current of
                Inl e \<Rightarrow> Inl e
              | Inr q' \<Rightarrow>
                  Inr \<lparr>samples = samples s @ [current],
                       buffer = (buffer s)[bufferCounter s := current],
                       last_sample = current,
                       delayLine = q',
                       bufferCounter =
                         (if length (buffer s) \<le> bufferCounter s + 1 then 0
                          else bufferCounter s + 1)\<rparr>)))"

text \<open>The loop: \<open>n\<close> iterations, stopping at the first exception.\<close>

fun ticks :: "nat \<Rightarrow> ks_state \<Rightarrow> error + ks_state" where
  "ticks 0 s = Inr s"
| "ticks (Suc n) s = (case tick s of Inl e \<Rightarrow> Inl e | Inr s' \<Rightarrow> ticks n s')"

text \<open>The state before the loop, given the noise-filled ring buffer.\<close>

definition initial :: "real list \<Rightarrow> error + ks_state" where
  "initial noise =
     (case noise of
        [] \<Rightarrow> Inl IndexError
      | b0 # _ \<Rightarrow>
          Inr \<lparr>samples = [], buffer = noise, last_sample = b0,
               delayLine = Queue 200, bufferCounter = 0\<rparr>)"

text \<open>
  \<open>getBaseStringSound\<close> returns the samples; the model also returns the state of the
  random generator it leaves behind. \<open>range(0, duration)\<close> is empty for a negative
  \<open>duration\<close>. The plot under \<open>if debug\<close> does not touch the result and \<open>debug\<close>
  is \<open>False\<close>.
\<close>

definition noise_buffer ::
    "nat \<Rightarrow> rng \<Rightarrow> real \<Rightarrow> real \<Rightarrow> error + (real list \<times> rng)" where
  \<comment> \<open>\<open>buffer = np.random.standard_normal(int(sampleRate / frequency))\<close>\<close>
  "noise_buffer capacity g frequency sampleRate =
     (case truediv_double sampleRate frequency of
        Inl e \<Rightarrow> Inl e
      | Inr period \<Rightarrow>
          (case int_of_double period of
             Inl e \<Rightarrow> Inl e
           | Inr n \<Rightarrow> standard_normal capacity g n))"

text \<open>The state after \<open>n\<close> iterations of the loop, with the generator's state after the draw.\<close>

definition string_run ::
    "nat \<Rightarrow> rng \<Rightarrow> real \<Rightarrow> real \<Rightarrow> nat \<Rightarrow> error + (ks_state \<times> rng)" where
  "string_run capacity g frequency sampleRate n =
     (case noise_buffer capacity g frequency sampleRate of
        Inl e \<Rightarrow> Inl e
      | Inr (noise, g') \<Rightarrow>
          (case initial noise of
             Inl e \<Rightarrow> Inl e
           | Inr s0 \<Rightarrow>
               (case ticks n s0 of
                  Inl e \<Rightarrow> Inl e
                | Inr s \<Rightarrow> Inr (s, g'))))"

definition getBaseStringSound ::
    "nat \<Rightarrow> rng \<Rightarrow> real \<Rightarrow> int \<Rightarrow> real \<Rightarrow> error + (real list \<times> rng)" where
  "getBaseStringSound capacity g frequency duration sampleRate =
     (case string_run capacity g frequency sampleRate (nat duration) of
        Inl e \<Rightarrow> Inl e
      | Inr (s, g') \<Rightarrow> Inr (samples s, g'))"

definition AcousticGuitar_getNote ::
    "nat \<Rightarrow> rng \<Rightarrow> real \<Rightarrow> int \<Rightarrow> real \<Rightarrow> error + (real list \<times> rng)" where
  "AcousticGuitar_getNote capacity g frequency duration sampleRate =
     getBaseStringSound capacity g frequency duration sampleRate"

section \<open>Trumpet.getNote\<close>

definition envelope :: "real list" where
  "envelope = [3.6, 2.825, 3, 2.688, 1.464, 1.520, 1.122, 0.940, 0.738, 0.495, 0.362,
               0.237, 0.154, 0.154, 0.101, 0.082, 0.054, 0.038, 0.036]"

text \<open>
  Additive synthesis: \<open>samples += amplitude * np.sin(frequency * (i + 1) * 2 * np.pi * time)\<close>
  for each \<open>(i, amplitude)\<close> of \<open>enumerate(envelope)\<close>, starting from
  \<open>np.zeros(duration)\<close>, which has the length of \<open>time\<close> (\<open>np.linspace\<close> has
  already raised for a negative duration).
\<close>

definition add_harmonic :: "real \<Rightarrow> real list \<Rightarrow> real list \<Rightarrow> nat \<times> real \<Rightarrow> real list" where
  "add_harmonic frequency time acc p =
     (case p of (i, amplitude) \<Rightarrow>
        map2 (+) acc (map (\<lambda>t. amplitude * sin (frequency * (real i + 1) * 2 * pi * t)) time))"

definition harmonics :: "real \<Rightarrow> real list \<Rightarrow> real list" where
  "harmonics frequency time =
     foldl (add_harmonic frequency time) (replicate (length time) 0) (enumerate 0 envelope)"

text \<open>
  The high-pass filter: \<open>newSamples[0] = samples[0]\<close>, then
  \<open>newSamples[i] = alpha * (newSamples[i - 1] + samples[i] - samples[i - 1])\<close> for
  \<open>i\<close> in \<open>range(1, duration)\<close>, on \<open>newSamples = np.zeros(duration)\<close>. Index 0
  of an empty array raises.
\<close>

definition highpass_step :: "real \<Rightarrow> real list \<Rightarrow> real list \<Rightarrow> nat \<Rightarrow> real list" where
  "highpass_step alpha xs newSamples i =
     newSamples[i := alpha * (newSamples ! (i - 1) + xs ! i - xs ! (i - 1))]"

definition highpass :: "real \<Rightarrow> real list \<Rightarrow> error + real list" where
  "highpass alpha xs =
     (if xs = [] then Inl IndexError
      else Inr (foldl (highpass_step alpha xs)
                      ((replicate (length xs) 0)[0 := xs ! 0]) [1..<length xs]))"

text \<open>The filter coefficient: \<open>RC = 1 / (np.pi * frequency * 32)\<close>,
  \<open>alpha = RC / (RC + 1.0 / sampleRate)\<close>.\<close>

definition filter_alpha :: "real \<Rightarrow> real \<Rightarrow> error + real" where
  "filter_alpha frequency sampleRate =
     (case truediv 1 (pi * frequency * 32) of
        Inl e \<Rightarrow> Inl e
      | Inr RC \<Rightarrow>
          (case truediv 1.0 sampleRate of
             Inl e \<Rightarrow> Inl e
           | Inr dt \<Rightarrow> truediv RC (RC + dt)))"

text \<open>
  The lengths of the segments, \<open>int(0.075 * sampleRate)\<close> and so on: the literal is a
  double, the product is rounded to a double, and \<open>int\<close> truncates it (the product of a
  finite \<open>sampleRate\<close> with a literal below 1 is finite).
\<close>

definition attackLength :: "real \<Rightarrow> int" where
  "attackLength sampleRate = py_int (mul_double (binary64 0.075) sampleRate)"

definition decayLength :: "real \<Rightarrow> int" where
  "decayLength sampleRate = py_int (mul_double (binary64 0.3) sampleRate)"

definition releaseLength :: "real \<Rightarrow> int" where
  "releaseLength sampleRate = py_int (mul_double (binary64 0.2) sampleRate)"

definition sustainLength :: "int \<Rightarrow> real \<Rightarrow> int" where
  "sustainLength duration sampleRate =
     duration - attackLength sampleRate - decayLength sampleRate - releaseLength sampleRate"

text \<open>\<open>peak = 0.1\<close> and \<open>sustain = peak * 0.8\<close>, a product of two doubles.\<close>

definition peak :: real where
  "peak = binary64 0.1"

definition sustain :: real where
  "sustain = mul_double peak (binary64 0.8)"

text \<open>The ADSR curve built under \<open>if sustainLength >= 0\<close>, by three \<open>np.append\<close>.\<close>

definition adsr :: "int \<Rightarrow> real \<Rightarrow> error + real list" where
  "adsr duration sampleRate =
     (case linspace 0 peak (attackLength sampleRate) of
        Inl e \<Rightarrow> Inl e
      | Inr a \<Rightarrow>
          (case linspace peak sustain (decayLength sampleRate) of
             Inl e \<Rightarrow> Inl e
           | Inr d \<Rightarrow>
               (case full_array (sustainLength duration sampleRate) sustain of
                  Inl e \<Rightarrow> Inl e
                | Inr s \<Rightarrow>
                    (case linspace sustain 0 (releaseLength sampleRate) of
                       Inl e \<Rightarrow> Inl e
                     | Inr r \<Rightarrow> Inr (((a @ d) @ s) @ r)))))"

text \<open>The signal after the first two stages, before the envelope.\<close>

definition filtered :: "real \<Rightarrow> int \<Rightarrow> real \<Rightarrow> error + real list" where
  "filtered frequency duration sampleRate =
     (case truediv (of_int duration) sampleRate of
        Inl e \<Rightarrow> Inl e
      | Inr seconds \<Rightarrow>
          (case linspace 0 seconds duration of
             Inl e \<Rightarrow> Inl e
           | Inr time \<Rightarrow>
               (case filter_alpha frequency sampleRate of
                  Inl e \<Rightarrow> Inl e
                | Inr alpha \<Rightarrow> highpass alpha (harmonics frequency time))))"

definition Trumpet_getNote :: "real \<Rightarrow> int \<Rightarrow> real \<Rightarrow> error + real list" where
  "Trumpet_getNote frequency duration sampleRate =
     (case filtered frequency duration sampleRate of
        Inl e \<Rightarrow> Inl e
      | Inr samples' \<Rightarrow>
          (if 0 \<le> sustainLength duration sampleRate then
             (case adsr duration sampleRate of
                Inl e \<Rightarrow> Inl e
              | Inr curve \<Rightarrow> imul samples' curve)
           else Inr samples'))"

section \<open>The three instruments behind one getNote\<close>

datatype instrument = Beep | AcousticGuitar | Trumpet

text \<open>
  A call of \<open>getNote\<close> on an instrument, in a given state of the random generator:
  the samples and the generator's state afterwards. Only the guitar reads the generator,
  and only its ring buffer is subject to \<open>capacity\<close>.
\<close>

fun getNote ::
    "instrument \<Rightarrow> nat \<Rightarrow> rng \<Rightarrow> real \<Rightarrow> int \<Rightarrow> real \<Rightarrow> error + (real list \<times> rng)" where
  "getNote Beep capacity g frequency duration sampleRate =
     (case Beep_getNote frequency duration sampleRate of
        Inl e \<Rightarrow> Inl e | Inr out \<Rightarrow> Inr (out, g))"
| "getNote AcousticGuitar capacity g frequency duration sampleRate =
     AcousticGuitar_getNote capacity g frequency duration sampleRate"
| "getNote Trumpet capacity g frequency duration sampleRate =
     (case Trumpet_getNote frequency duration sampleRate of
        Inl e \<Rightarrow> Inl e | Inr out \<Rightarrow> Inr (out, g))"

text \<open>What a call returns to its caller, without the generator's state.\<close>

definition returned :: "error + (real list \<times> rng) \<Rightarrow> error + real list" where
  "returned r = map_sum id fst r"

text \<open>
  The invariant of the loop of \<open>getBaseStringSound\<close>: the cursor is inside the ring
  buffer, the delay line keeps its capacity and holds one item for each sample written,
  up to 200.
\<close>

definition loop_inv :: "ks_state \<Rightarrow> bool" where
  "loop_inv s \<longleftrightarrow>
     bufferCounter s < length (buffer s) \<and> maxsize (delayLine s) = 200 \<and>
     length (items (delayLine s)) = min (length (samples s)) 200"

section \<open>Rounding to doubles\<close>

lemma round_half_even_near:
  assumes "\<bar>y - of_int m\<bar> < 1 / 2"
  shows "round_half_even y = m"
proof (cases "of_int m \<le> y")
  case True
  with assms have "\<lfloor>y\<rfloor> = m" by (simp add: floor_eq_iff abs_less_iff)
  with assms True show ?thesis by (simp add: round_half_even_def Let_def abs_less_iff)
next
  case False
  with assms have f: "\<lfloor>y\<rfloor> = m - 1" by (simp add: floor_eq_iff abs_less_iff)
  from assms False have "1 / 2 < y - of_int (m - 1)" by (simp add: abs_less_iff)
  with f show ?thesis by (simp add: round_half_even_def Let_def)
qed

lemma round_half_even_ge_floor: "\<lfloor>y\<rfloor> \<le> round_half_even y"
  by (simp add: round_half_even_def Let_def)

lemma binary64_eq:
  fixes e m :: int
  assumes "- 1022 \<le> e" and "u = 2 powr (of_int e - 52)"
    and "u * 2 ^ 52 \<le> \<bar>x\<bar>" and "\<bar>x\<bar> < u * 2 ^ 53"
    and "\<bar>x / u - of_int m\<bar> < 1 / 2"
  shows "binary64 x = of_int m * u"
proof -
  have u: "0 < u" using assms(2) by simp
  have p52: "u * 2 ^ 52 = 2 powr of_int e"
    unfolding assms(2) by (simp add: powr_diff powr_realpow [symmetric])
  have p53: "u * 2 ^ 53 = 2 powr (of_int e + 1)"
    unfolding assms(2) by (simp add: powr_diff powr_add powr_realpow [symmetric])
  from assms(3) u have nz: "x \<noteq> 0" by (auto simp: not_le [symmetric] dest: mult_pos_pos)
  then have pos: "0 < \<bar>x\<bar>" by simp
  have "\<lfloor>log 2 \<bar>x\<bar>\<rfloor> = e"
    using assms(3,4) unfolding p52 p53 by (subst floor_log_eq_powr_iff [OF pos]) simp_all
  with assms(1) have "max \<lfloor>log 2 \<bar>x\<bar>\<rfloor> (- 1022) = e" by simp
  with nz round_half_even_near [OF assms(5)] show ?thesis
    by (simp add: binary64_def Let_def assms(2))
qed

lemma binary64_nonneg: "0 \<le> x \<Longrightarrow> 0 \<le> binary64 x"
proof -
  assume x: "0 \<le> x"
  have "0 \<le> of_int (round_half_even (x / u)) * u" if "0 < u" for u :: real
  proof -
    from x that have "0 \<le> x / u" by simp
    then have "0 \<le> \<lfloor>x / u\<rfloor>" by simp
    with round_half_even_ge_floor [of "x / u"] have "0 \<le> round_half_even (x / u)" by linarith
    with that show ?thesis by simp
  qed
  then show ?thesis by (simp add: binary64_def Let_def)
qed


text \<open>The literals of the source and the products the program forms with them.\<close>

lemma literal_0075: "binary64 0.075 = 5404319552844595 / 2 ^ 56"
  using binary64_eq [of "- 4" "1 / 2 ^ 56" "0.075" 5404319552844595]
  by (simp add: powr_minus_divide)

lemma literal_03: "binary64 0.3 = 5404319552844595 / 2 ^ 54"
  using binary64_eq [of "- 2" "1 / 2 ^ 54" "0.3" 5404319552844595]
  by (simp add: powr_minus_divide)

lemma literal_02: "binary64 0.2 = 7205759403792794 / 2 ^ 55"
  using binary64_eq [of "- 3" "1 / 2 ^ 55" "0.2" 7205759403792794]
  by (simp add: powr_minus_divide)

lemma literal_01: "binary64 0.1 = 7205759403792794 / 2 ^ 56"
  using binary64_eq [of "- 4" "1 / 2 ^ 56" "0.1" 7205759403792794]
  by (simp add: powr_minus_divide)





lemma lengths_44100:
  "attackLength 44100 = 3307" "decayLength 44100 = 13230" "releaseLength 44100 = 8820"
proof -
  have "mul_double (binary64 0.075) 44100 = 6615 / 2"
    unfolding mul_double_def literal_0075
    using binary64_eq [of 11 "1 / 2 ^ 41" "5404319552844595 / 2 ^ 56 * 44100" 7273269417738240]
    by (simp add: powr_minus_divide)
  then show "attackLength 44100 = 3307"
    by (simp add: attackLength_def py_int_def floor_eq_iff)
  have "mul_double (binary64 0.3) 44100 = 13230"
    unfolding mul_double_def literal_03
    using binary64_eq [of 13 "1 / 2 ^ 39" "5404319552844595 / 2 ^ 54 * 44100" 7273269417738240]
    by (simp add: powr_minus_divide)
  then show "decayLength 44100 = 13230"
    by (simp add: decayLength_def py_int_def)
  have "mul_double (binary64 0.2) 44100 = 8820"
    unfolding mul_double_def literal_02
    using binary64_eq [of 13 "1 / 2 ^ 39" "7205759403792794 / 2 ^ 55 * 44100" 4848846278492160]
    by (simp add: powr_minus_divide)
  then show "releaseLength 44100 = 8820"
    by (simp add: releaseLength_def py_int_def)
qed


lemma lengths_1: "attackLength 1 = 0" "decayLength 1 = 0" "releaseLength 1 = 0"
proof -
  have "mul_double (binary64 0.075) 1 = 5404319552844595 / 2 ^ 56"
    unfolding mul_double_def literal_0075
    using binary64_eq [of "- 4" "1 / 2 ^ 56" "5404319552844595 / 2 ^ 56 * 1" 5404319552844595]
    by (simp add: powr_minus_divide)
  then show "attackLength 1 = 0"
    by (simp add: attackLength_def py_int_def floor_eq_iff)
  have "mul_double (binary64 0.3) 1 = 5404319552844595 / 2 ^ 54"
    unfolding mul_double_def literal_03
    using binary64_eq [of "- 2" "1 / 2 ^ 54" "5404319552844595 / 2 ^ 54 * 1" 5404319552844595]
    by (simp add: powr_minus_divide)
  then show "decayLength 1 = 0"
    by (simp add: decayLength_def py_int_def floor_eq_iff)
  have "mul_double (binary64 0.2) 1 = 7205759403792794 / 2 ^ 55"
    unfolding mul_double_def literal_02
    using binary64_eq [of "- 3" "1 / 2 ^ 55" "7205759403792794 / 2 ^ 55 * 1" 7205759403792794]
    by (simp add: powr_minus_divide)
  then show "releaseLength 1 = 0"
    by (simp add: releaseLength_def py_int_def floor_eq_iff)
qed

text \<open>Quotients that are doubles themselves, and \<open>1 / 0.1\<close>, which is rounded up to 10.\<close>

lemma quotient_2: "binary64 2 = 2"
  using binary64_eq [of 1 "1 / 2 ^ 51" 2 4503599627370496] by (simp add: powr_minus_divide)


lemma quotient_quarter: "binary64 (1 / 4) = 1 / 4"
  using binary64_eq [of "- 2" "1 / 2 ^ 54" "1 / 4" 4503599627370496]
  by (simp add: powr_minus_divide)

lemma quotient_7_4: "binary64 (7 / 4) = 7 / 4"
  using binary64_eq [of 0 "1 / 2 ^ 52" "7 / 4" 7881299347898368]
  by (simp add: powr_minus_divide)

lemma quotient_tenth: "binary64 (1 / binary64 0.1) = 10"
  unfolding literal_01
  using binary64_eq [of 3 "1 / 2 ^ 49" "1 / (7205759403792794 / 2 ^ 56)" 5629499534213120]
  by (simp add: powr_minus_divide)

section \<open>Lengths of the library arrays and of the stages\<close>

lemma linspace_length: "linspace a b n = Inr xs \<Longrightarrow> int (length xs) = n"
  by (auto simp: linspace_def split: if_splits)

lemma linspace_Inr: "0 \<le> n \<Longrightarrow> \<exists>xs. linspace a b n = Inr xs"
  by (simp add: linspace_def)

lemma linspace_first: "linspace a b n = Inr xs \<Longrightarrow> 1 \<le> n \<Longrightarrow> xs ! 0 = a"
  by (auto simp: linspace_def nth_map_upt split: if_splits)

lemma imul_length: "imul a b = Inr c \<Longrightarrow> length c = length a"
  by (auto simp: imul_def split: if_splits)

lemma harmonics_fold_length:
  "length acc = length time \<Longrightarrow> length (foldl (add_harmonic f time) acc ps) = length time"
  by (induction ps arbitrary: acc) (auto simp: add_harmonic_def split: prod.splits)

lemma harmonics_length: "length (harmonics f time) = length time"
  unfolding harmonics_def by (rule harmonics_fold_length) simp

lemma highpass_fold_length: "length (foldl (highpass_step alpha xs) ns js) = length ns"
  by (induction js arbitrary: ns) (auto simp: highpass_step_def)

lemma highpass_length: "highpass alpha xs = Inr ys \<Longrightarrow> length ys = length xs"
  by (auto simp: highpass_def highpass_fold_length split: if_splits)

lemma filtered_length: "filtered f d sr = Inr ys \<Longrightarrow> int (length ys) = d"
  by (auto simp: filtered_def harmonics_length split: sum.splits
      dest!: highpass_length linspace_length)

lemma Trumpet_length: "Trumpet_getNote f d sr = Inr out \<Longrightarrow> int (length out) = d"
  by (auto simp: Trumpet_getNote_def split: sum.splits if_splits
      dest!: imul_length filtered_length)

lemma Beep_length: "Beep_getNote f d sr = Inr out \<Longrightarrow> int (length out) = d"
  by (auto simp: Beep_getNote_def split: sum.splits dest!: linspace_length)

section \<open>The stages of the trumpet\<close>

lemma filter_alpha_Inr:
  assumes "0 < f" and "0 < sr"
  shows "\<exists>alpha. filter_alpha f sr = Inr alpha"
proof -
  from assms have "0 < 1 / (pi * f * 32) + 1 / sr" by (simp add: add_pos_pos)
  then have "1 / (pi * f * 32) + 1 / sr \<noteq> 0" by simp
  with assms show ?thesis by (simp add: filter_alpha_def truediv_def)
qed

lemma highpass_fold_first:
  "\<forall>j \<in> set js. 1 \<le> j \<Longrightarrow> foldl (highpass_step alpha xs) ns js ! 0 = ns ! 0"
  by (induction js arbitrary: ns) (auto simp: highpass_step_def)

lemma highpass_first: "highpass alpha xs = Inr ys \<Longrightarrow> ys ! 0 = xs ! 0"
  by (auto simp: highpass_def highpass_fold_first split: if_splits)

lemma highpass_Inr: "xs \<noteq> [] \<Longrightarrow> \<exists>ys. highpass alpha xs = Inr ys"
  by (simp add: highpass_def)

lemma harmonics_fold_first:
  "length acc = length time \<Longrightarrow> time \<noteq> [] \<Longrightarrow> time ! 0 = 0 \<Longrightarrow> acc ! 0 = 0 \<Longrightarrow>
   foldl (add_harmonic f time) acc ps ! 0 = 0"
  by (induction ps arbitrary: acc) (auto simp: add_harmonic_def split: prod.splits)

lemma harmonics_first: "time \<noteq> [] \<Longrightarrow> time ! 0 = 0 \<Longrightarrow> harmonics f time ! 0 = 0"
  unfolding harmonics_def by (rule harmonics_fold_first) simp_all

lemma filtered_Inr:
  assumes "0 < f" and "0 < sr" and "1 \<le> d"
  shows "\<exists>time alpha hp. linspace 0 (of_int d / sr) d = Inr time \<and>
           filter_alpha f sr = Inr alpha \<and>
           highpass alpha (harmonics f time) = Inr hp \<and>
           filtered f d sr = Inr hp \<and> hp ! 0 = 0 \<and> int (length hp) = d"
proof -
  from assms(3) have "0 \<le> d" by simp
  from linspace_Inr [OF this] obtain time where
    t: "linspace 0 (of_int d / sr) d = Inr time" by blast
  from linspace_length [OF t] assms(3) have ne: "time \<noteq> []" by auto
  from linspace_first [OF t assms(3)] have t0: "time ! 0 = 0" .
  from filter_alpha_Inr [OF assms(1,2)] obtain alpha where
    a: "filter_alpha f sr = Inr alpha" by blast
  from ne have "harmonics f time \<noteq> []" using harmonics_length [of f time] by auto
  from highpass_Inr [OF this] obtain hp where
    h: "highpass alpha (harmonics f time) = Inr hp" by blast
  from highpass_first [OF h] harmonics_first [OF ne t0] have h0: "hp ! 0 = 0" by simp
  from assms(2) t a h have fl: "filtered f d sr = Inr hp"
    by (simp add: filtered_def truediv_def)
  from filtered_length [OF fl] t a h h0 fl show ?thesis by blast
qed

lemma py_int_nonneg: "0 \<le> x \<Longrightarrow> 0 \<le> py_int x"
  by (simp add: py_int_def)





section \<open>The loop of the plucked string\<close>

lemma ticks_add:
  "ticks (m + n) s = (case ticks m s of Inl e \<Rightarrow> Inl e | Inr s' \<Rightarrow> ticks n s')"
  by (induction m arbitrary: s) (auto split: sum.splits)

lemma tick_samples:
  "tick s = Inr s' \<Longrightarrow> length (samples s') = Suc (length (samples s))"
  by (auto simp: tick_def split: if_splits sum.splits prod.splits)

lemma ticks_samples:
  "ticks n s = Inr s' \<Longrightarrow> length (samples s') = length (samples s) + n"
proof (induction n arbitrary: s)
  case 0
  then show ?case by simp
next
  case (Suc n)
  then obtain s1 where t: "tick s = Inr s1" and r: "ticks n s1 = Inr s'"
    by (auto split: sum.splits)
  from Suc.IH [OF r] tick_samples [OF t] show ?case by simp
qed

lemma initial_inv:
  "initial noise = Inr s0 \<Longrightarrow> loop_inv s0 \<and> samples s0 = [] \<and> buffer s0 = noise"
  by (auto simp: initial_def loop_inv_def Queue_def split: list.splits)

lemma initial_Inr: "noise \<noteq> [] \<Longrightarrow> \<exists>s0. initial noise = Inr s0"
  by (cases noise) (auto simp: initial_def)

lemma getBaseStringSound_length:
  "getBaseStringSound cap g f d sr = Inr (out, g') \<Longrightarrow> length out = nat d"
  by (auto simp: getBaseStringSound_def string_run_def split: sum.splits prod.splits
      dest!: ticks_samples initial_inv)

text \<open>While fewer than 200 samples are written the delay line is not full, and the
  iteration writes the low-pass value.\<close>

lemma tick_not_full:
  assumes "loop_inv s" and "length (samples s) < 200"
  shows "\<not> full (delayLine s) \<and>
    (\<exists>s'. tick s = Inr s' \<and> loop_inv s' \<and> length (buffer s') = length (buffer s) \<and>
       samples s' = samples s @ [(last_sample s + buffer s ! bufferCounter s) / 2])"
  using assms
  by (auto simp: loop_inv_def tick_def feedback_def full_def put_def)

text \<open>From 200 samples on the delay line is full at the test; the \<open>get\<close> makes
  room for the \<open>put\<close>, so neither blocks.\<close>

lemma tick_full:
  assumes "loop_inv s" and "200 \<le> length (samples s)"
  shows "\<exists>s'. tick s = Inr s' \<and> loop_inv s' \<and> length (buffer s') = length (buffer s) \<and>
       samples s' = samples s @
         [((last_sample s + buffer s ! bufferCounter s) / 2
            + hd (items (delayLine s)) * 0.999) / 2]"
proof -
  from assms obtain y ys where i: "items (delayLine s) = y # ys" and l: "length ys = 199"
    by (cases "items (delayLine s)") (auto simp: loop_inv_def)
  with assms show ?thesis
    by (auto simp: loop_inv_def tick_def feedback_def full_def put_def get_def)
qed

lemma tick_inv:
  assumes "loop_inv s"
  shows "\<exists>s' x. tick s = Inr s' \<and> loop_inv s' \<and> length (buffer s') = length (buffer s) \<and>
       samples s' = samples s @ [x]"
proof (cases "length (samples s) < 200")
  case True
  with tick_not_full [OF assms] show ?thesis by blast
next
  case False
  with tick_full [OF assms] show ?thesis by (metis not_less)
qed

lemma ticks_inv:
  "loop_inv s \<Longrightarrow>
   \<exists>s' ys. ticks n s = Inr s' \<and> loop_inv s' \<and> samples s' = samples s @ ys \<and> length ys = n"
proof (induction n arbitrary: s)
  case 0
  then show ?case by simp
next
  case (Suc n)
  from tick_inv [OF Suc.prems] obtain s1 x where
    t: "tick s = Inr s1" and i: "loop_inv s1" and a: "samples s1 = samples s @ [x]" by blast
  from Suc.IH [OF i] obtain s' ys where
    "ticks n s1 = Inr s'" "loop_inv s'" "samples s' = samples s1 @ ys" "length ys = n" by blast
  with t a show ?case by simp
qed

text \<open>
  The ring buffer for positive arguments, by its size \<open>N = int(q)\<close>, \<open>q\<close> the
  double quotient: an infinite \<open>q\<close> raises in \<open>int\<close>, \<open>N\<close> from \<open>2^60\<close> on or
  above the capacity raises in numpy, any other \<open>N\<close> gives \<open>N\<close> cells of noise.
\<close>

lemma quotient_nonneg:
  assumes "0 < f" and "0 < sr"
  shows "0 \<le> binary64 (sr / f)" and "0 \<le> py_int (binary64 (sr / f))"
    and "py_int (binary64 (sr / f)) = \<lfloor>binary64 (sr / f)\<rfloor>"
proof -
  from assms have "0 \<le> sr / f" by simp
  then show q: "0 \<le> binary64 (sr / f)" by (rule binary64_nonneg)
  then show "0 \<le> py_int (binary64 (sr / f))" by (rule py_int_nonneg)
  from q show "py_int (binary64 (sr / f)) = \<lfloor>binary64 (sr / f)\<rfloor>"
    unfolding py_int_def by (rule if_P)
qed

lemma size_finite:
  assumes "0 \<le> q" and "py_int q < 2 ^ 60"
  shows "\<not> 2 ^ 1024 \<le> \<bar>q\<bar>"
proof
  assume "2 ^ 1024 \<le> \<bar>q\<bar>"
  with assms(1) have "(2 ^ 60 :: real) \<le> q" by simp
  then have "(2 ^ 60 :: int) \<le> \<lfloor>q\<rfloor>" by (simp add: le_floor_iff)
  with assms show False by (simp add: py_int_def)
qed




lemma noise_buffer_Inr:
  assumes "0 < f" and "0 < sr" and "py_int (binary64 (sr / f)) < 2 ^ 60"
    and "py_int (binary64 (sr / f)) \<le> int cap"
  shows "\<exists>noise g'. noise_buffer cap g f sr = Inr (noise, g') \<and>
    int (length noise) = py_int (binary64 (sr / f)) \<and> noise = map g [0..<length noise]"
proof -
  note q = quotient_nonneg [OF assms(1,2)]
  from size_finite [OF q(1) assms(3)] q(2) assms show ?thesis
    by (simp add: noise_buffer_def truediv_double_def int_of_double_def standard_normal_def)
qed

lemma string_run_total:
  assumes "0 < f" and "0 < sr" and "1 \<le> py_int (binary64 (sr / f))"
    and "py_int (binary64 (sr / f)) < 2 ^ 60" and "py_int (binary64 (sr / f)) \<le> int cap"
  shows "\<exists>s g'. string_run cap g f sr n = Inr (s, g') \<and> length (samples s) = n"
proof -
  from noise_buffer_Inr [OF assms(1,2,4,5)] obtain noise g' where
    nb: "noise_buffer cap g f sr = Inr (noise, g')"
    and len: "int (length noise) = py_int (binary64 (sr / f))"
    by blast
  from len assms(3) have "0 < length noise" by linarith
  then have "noise \<noteq> []" by simp
  from initial_Inr [OF this] obtain s0 where s0: "initial noise = Inr s0" by blast
  from initial_inv [OF s0] have i: "loop_inv s0" and e: "samples s0 = []" by simp_all
  from ticks_inv [OF i, of n] e obtain s where "ticks n s0 = Inr s" "length (samples s) = n"
    by auto
  with nb s0 show ?thesis by (simp add: string_run_def)
qed



text \<open>
  Up to 200 iterations: the delay line is not full in any state the loop passes through,
  the last included, and each sample written is the low-pass value of the state before.
\<close>

lemma string_run_step:
  assumes "string_run cap g f sr n = Inr (sn, g')" and "i \<le> n" and "i < 200"
  shows "\<exists>s. string_run cap g f sr i = Inr (s, g') \<and> \<not> full (delayLine s) \<and>
     (i < n \<longrightarrow> samples sn ! i = (last_sample s + buffer s ! bufferCounter s) / 2)"
proof -
  from assms(1) obtain noise s0 where
    nb: "noise_buffer cap g f sr = Inr (noise, g')" and s0: "initial noise = Inr s0"
    and tn: "ticks n s0 = Inr sn"
    by (auto simp: string_run_def split: sum.splits prod.splits)
  from initial_inv [OF s0] have i0: "loop_inv s0" and e: "samples s0 = []" by simp_all
  from ticks_inv [OF i0, of i] e obtain s where
    ti: "ticks i s0 = Inr s" and inv: "loop_inv s" and ls: "length (samples s) = i" by auto
  from tick_not_full [OF inv] ls assms(3) obtain s1 where
    nf: "\<not> full (delayLine s)" and t1: "tick s = Inr s1" and i1: "loop_inv s1"
    and a1: "samples s1 = samples s @ [(last_sample s + buffer s ! bufferCounter s) / 2]"
    by auto
  have "samples sn ! i = (last_sample s + buffer s ! bufferCounter s) / 2" if "i < n"
  proof -
    define k where "k = n - Suc i"
    with that have n: "n = i + Suc k" by simp
    have "ticks (i + Suc k) s0 =
        (case ticks i s0 of Inl e \<Rightarrow> Inl e | Inr s' \<Rightarrow> ticks (Suc k) s')"
      by (rule ticks_add)
    with tn ti t1 have r: "ticks k s1 = Inr sn" unfolding n by simp
    from ticks_inv [OF i1, of k] r obtain ys where "samples sn = samples s1 @ ys"
      by auto
    with a1 ls show ?thesis by (simp add: nth_append)
  qed
  with nb s0 ti nf show ?thesis by (simp add: string_run_def)
qed

lemma returned_Inr: "returned r = Inr out \<longleftrightarrow> (\<exists>g'. r = Inr (out, g'))"
  by (cases r) (auto simp: returned_def)

text \<open>A run of the guitar on the draws 0, 1, 2, ...: two cells of noise, three samples.\<close>

lemma guitar_example:
  "returned (getNote AcousticGuitar 1000 real 2 3 4) = Inr [0, 1 / 2, 1 / 4]"
  by (simp add: returned_def AcousticGuitar_getNote_def getBaseStringSound_def string_run_def
      noise_buffer_def truediv_double_def int_of_double_def quotient_2 standard_normal_def
      py_int_def initial_def Queue_def
      eval_nat_numeral upt_conv_Cons tick_def feedback_def full_def put_def)

section \<open>C1: the length of a note\<close>

text \<open>
  C1. Whenever a call of \<open>getNote\<close> on any of the three instruments returns normally
  for a duration \<open>>= 0\<close>, the returned sequence has exactly \<open>duration\<close> samples.
  (The theorem needs neither \<open>frequency > 0\<close> nor \<open>sampleRate > 0\<close>.)
\<close>

theorem getNote_length:
  assumes "returned (getNote instr capacity g frequency duration sampleRate) = Inr out"
    and "0 \<le> duration"
  shows "int (length out) = duration"
proof -
  from assms(1) obtain g' where
    r: "getNote instr capacity g frequency duration sampleRate = Inr (out, g')"
    unfolding returned_Inr by blast
  show ?thesis
  proof (cases instr)
    case Beep
    with r show ?thesis by (auto split: sum.splits dest: Beep_length)
  next
    case AcousticGuitar
    with r assms(2) show ?thesis
      by (auto simp: AcousticGuitar_getNote_def dest: getBaseStringSound_length)
  next
    case Trumpet
    with r show ?thesis by (auto split: sum.splits dest: Trumpet_length)
  qed
qed

theorem getNote_length_witness:
  "returned (getNote AcousticGuitar 1000 real 2 3 4) = Inr [0, 1 / 2, 1 / 4] \<and>
   int (length [0, 1 / 2, 1 / 4 :: real]) = 3"
  using getNote_length [of AcousticGuitar 1000 real 2 3 4 "[0, 1 / 2, 1 / 4]"] guitar_example
  by simp

section \<open>C2: the time axis of the tone\<close>

text \<open>
  For two samples or more the time axis of \<open>Beep.getNote\<close> has the step
  \<open>seconds / (duration - 1)\<close>: \<open>np.linspace\<close> includes its end point.
\<close>

lemma Beep_getNote_samples:
  assumes "sampleRate \<noteq> 0" and "2 \<le> duration" and "i < nat duration"
  shows "\<exists>out. Beep_getNote frequency duration sampleRate = Inr out \<and>
    out ! i = sin (frequency * 2 * pi *
                 (real i * (of_int duration / sampleRate / (of_int duration - 1))))"
  using assms by (simp add: Beep_getNote_def truediv_def linspace_def)

text \<open>
  C2 says that sample \<open>i\<close> of the tone is \<open>sin(2 pi frequency i / sampleRate)\<close>. At
  frequency 1, duration 2, sampleRate 4 the code returns \<open>[0, sin pi] = [0, 0]\<close>, its
  second time point being \<open>seconds = 1/2\<close>, where C2 gives \<open>sin (2 pi / 4) = 1\<close> for
  index 1.
\<close>

theorem Beep_getNote_endpoint:
  "Beep_getNote 1 2 4 = Inr [0, 0] \<and> sin (2 * pi * 1 * real 1 / 4) = 1"
  by (simp add: Beep_getNote_def truediv_def linspace_def upt_conv_Cons)

section \<open>C3: when the plucked string raises\<close>


lemma guitar_zero_frequency:
  "AcousticGuitar_getNote capacity g 0 duration sampleRate = Inl ZeroDivisionError"
  by (simp add: AcousticGuitar_getNote_def getBaseStringSound_def string_run_def
      noise_buffer_def truediv_double_def)



section \<open>C4: the size of the ring buffer\<close>

text \<open>
  C4 as stated fails: at sampleRate 7 and frequency 4 the quotient is 1.75, the buffer
  has \<open>int(1.75) = 1\<close> cell, and rounding to the nearest integer gives 2.
\<close>

theorem noise_buffer_round_counterexample:
  "map_sum id length (returned (noise_buffer 1000 real 4 7)) = Inr 1 \<and>
   round (7 / 4 :: real) = 2"
proof -
  have "\<lfloor>7 / 4 :: real\<rfloor> = 1" by (simp add: floor_eq_iff)
  moreover have "round (7 / 4 :: real) = 2" by (simp add: round_def floor_eq_iff)
  ultimately show ?thesis
    by (simp add: returned_def noise_buffer_def truediv_double_def int_of_double_def
        quotient_7_4 standard_normal_def py_int_def)
qed

text \<open>
  The quotient is a double: at sampleRate 1 and frequency 0.1 it is \<open>1 / 0.1 = 10.0\<close>
  and the buffer has 10 cells, although the double \<open>0.1\<close> is above one tenth and goes
  into 1 only 9 times.
\<close>

lemma noise_buffer_tenth:
  "map_sum id length (returned (noise_buffer 1000 real (binary64 0.1) 1)) = Inr 10 \<and>
   \<lfloor>1 / binary64 0.1\<rfloor> = 9"
proof -
  have "binary64 0.1 \<noteq> 0" by (simp add: literal_01)
  moreover have "\<lfloor>1 / binary64 0.1\<rfloor> = 9" by (simp add: literal_01 floor_eq_iff)
  ultimately show ?thesis
    by (simp add: returned_def noise_buffer_def truediv_double_def int_of_double_def
        quotient_tenth standard_normal_def py_int_def)
qed

text \<open>
  C4, amended. For frequency \<open>> 0\<close> and sampleRate \<open>> 0\<close> the ring buffer has
  \<open>N = int(q)\<close> cells, where \<open>q\<close> is the double quotient \<open>sampleRate / frequency\<close>
  (the exact quotient rounded to the nearest double): \<open>q\<close> is truncated, not rounded,
  so \<open>N <= q < N + 1\<close>. This holds whenever numpy can allocate \<open>N\<close> cells; the loop
  then starts on this buffer if it is not empty.
\<close>

theorem noise_buffer_size:
  assumes "0 < frequency" and "0 < sampleRate"
    and "py_int (binary64 (sampleRate / frequency)) < 2 ^ 60"
    and "py_int (binary64 (sampleRate / frequency)) \<le> int capacity"
  shows "\<exists>noise g'. noise_buffer capacity g frequency sampleRate = Inr (noise, g') \<and>
           int (length noise) = \<lfloor>binary64 (sampleRate / frequency)\<rfloor> \<and>
           real (length noise) \<le> binary64 (sampleRate / frequency) \<and>
           binary64 (sampleRate / frequency) < real (length noise) + 1 \<and>
           (noise \<noteq> [] \<longrightarrow>
              (\<exists>s. string_run capacity g frequency sampleRate 0 = Inr (s, g') \<and>
                   buffer s = noise))"
proof -
  let ?q = "binary64 (sampleRate / frequency)"
  note q = quotient_nonneg [OF assms(1,2)]
  from noise_buffer_Inr [OF assms, of g] obtain noise g' where
    nb: "noise_buffer capacity g frequency sampleRate = Inr (noise, g')"
    and len: "int (length noise) = py_int ?q" by blast
  from len q(3) have fl: "int (length noise) = \<lfloor>?q\<rfloor>" by simp
  have "of_int \<lfloor>?q\<rfloor> \<le> ?q" and "?q < of_int \<lfloor>?q\<rfloor> + 1" by linarith+
  with fl [symmetric] have b: "real (length noise) \<le> ?q" "?q < real (length noise) + 1"
    by simp_all
  have "\<exists>s. string_run capacity g frequency sampleRate 0 = Inr (s, g') \<and> buffer s = noise"
    if "noise \<noteq> []"
  proof -
    from initial_Inr [OF that] obtain s0 where s0: "initial noise = Inr s0" by blast
    with initial_inv [OF s0] nb show ?thesis by (simp add: string_run_def)
  qed
  with nb fl b show ?thesis by blast
qed

theorem noise_buffer_size_witness:
  "\<exists>noise g'. noise_buffer 1000 real 4 7 = Inr (noise, g') \<and> int (length noise) = 1 \<and>
     (\<exists>s. string_run 1000 real 4 7 0 = Inr (s, g') \<and> buffer s = noise)"
proof -
  have f: "\<lfloor>7 / 4 :: real\<rfloor> = 1" by (simp add: floor_eq_iff)
  then have n: "py_int (binary64 (7 / 4)) = 1" by (simp add: quotient_7_4 py_int_def)
  have "(0 :: real) < 4" "(0 :: real) < 7" "py_int (binary64 (7 / 4)) < 2 ^ 60"
    "py_int (binary64 (7 / 4)) \<le> int 1000" by (simp_all add: n)
  from noise_buffer_size [OF this, of real] obtain noise g' where
    "noise_buffer 1000 real 4 7 = Inr (noise, g')"
    and l: "int (length noise) = \<lfloor>binary64 (7 / 4)\<rfloor>"
    and s: "noise \<noteq> [] \<longrightarrow>
              (\<exists>s. string_run 1000 real 4 7 0 = Inr (s, g') \<and> buffer s = noise)" by blast
  moreover from l have l1: "int (length noise) = 1" by (simp add: quotient_7_4 f)
  moreover from l1 have "noise \<noteq> []" by auto
  ultimately show ?thesis by blast
qed

section \<open>C5: the delay line of a short note\<close>

text \<open>
  C5 as stated fails in its first part: a call with duration 0 does not always give the
  empty sequence. At frequency 4 and sampleRate 1 the ring buffer is empty and the call
  raises IndexError before the loop.
\<close>

theorem duration_zero_counterexample:
  "getBaseStringSound 1000 real 4 0 1 = Inl IndexError"
  by (simp add: getBaseStringSound_def string_run_def noise_buffer_def truediv_double_def
      int_of_double_def quotient_quarter standard_normal_def py_int_def initial_def)

text \<open>
  C5, amended. For a duration below 200, whenever the String Generator returns (it does
  when its ring buffer has a cell and can be allocated): the output is empty for duration
  0; the delay line is below its capacity in every state of the synthesis, before each
  iteration and after the last \<open>put\<close>, so the feedback branch is never taken; and sample
  \<open>i\<close> is the low-pass value \<open>(last + buffer[bufferCounter]) / 2\<close> of the state
  iteration \<open>i\<close> starts in.
\<close>

theorem delay_line_never_full:
  assumes "duration < 200"
  shows "(0 < frequency \<and> 0 < sampleRate \<and>
          1 \<le> py_int (binary64 (sampleRate / frequency)) \<and>
          py_int (binary64 (sampleRate / frequency)) < 2 ^ 60 \<and>
          py_int (binary64 (sampleRate / frequency)) \<le> int capacity \<longrightarrow>
            (\<exists>out g'. getBaseStringSound capacity g frequency duration sampleRate
                        = Inr (out, g'))) \<and>
         (\<forall>out g'. getBaseStringSound capacity g frequency duration sampleRate = Inr (out, g') \<longrightarrow>
            (duration = 0 \<longrightarrow> out = []) \<and>
            (\<forall>i \<le> nat duration.
               \<exists>s. string_run capacity g frequency sampleRate i = Inr (s, g') \<and>
                   \<not> full (delayLine s) \<and>
                   (i < nat duration \<longrightarrow>
                      out ! i = (last_sample s + buffer s ! bufferCounter s) / 2)))"
proof (intro conjI impI allI)
  assume a: "0 < frequency \<and> 0 < sampleRate \<and>
          1 \<le> py_int (binary64 (sampleRate / frequency)) \<and>
          py_int (binary64 (sampleRate / frequency)) < 2 ^ 60 \<and>
          py_int (binary64 (sampleRate / frequency)) \<le> int capacity"
  then have "0 < frequency" "0 < sampleRate"
    "1 \<le> py_int (binary64 (sampleRate / frequency))"
    "py_int (binary64 (sampleRate / frequency)) < 2 ^ 60"
    "py_int (binary64 (sampleRate / frequency)) \<le> int capacity" by simp_all
  from string_run_total [OF this, of g "nat duration"]
  show "\<exists>out g'. getBaseStringSound capacity g frequency duration sampleRate = Inr (out, g')"
    by (auto simp: getBaseStringSound_def)
next
  fix out g'
  assume r: "getBaseStringSound capacity g frequency duration sampleRate = Inr (out, g')"
    and "duration = 0"
  with getBaseStringSound_length [OF r] show "out = []" by simp
next
  fix out g' i
  assume r: "getBaseStringSound capacity g frequency duration sampleRate = Inr (out, g')"
    and i: "i \<le> nat duration"
  from r obtain sn where
    sn: "string_run capacity g frequency sampleRate (nat duration) = Inr (sn, g')"
    and out: "out = samples sn"
    by (auto simp: getBaseStringSound_def split: sum.splits prod.splits)
  from i assms have "i < 200" by simp
  from string_run_step [OF sn i this] out
  show "\<exists>s. string_run capacity g frequency sampleRate i = Inr (s, g') \<and>
                   \<not> full (delayLine s) \<and>
                   (i < nat duration \<longrightarrow>
                      out ! i = (last_sample s + buffer s ! bufferCounter s) / 2)" by simp
qed

theorem delay_line_never_full_witness:
  "\<exists>out g'. getBaseStringSound 1000 real 2 3 4 = Inr (out, g') \<and>
     (\<exists>s. string_run 1000 real 2 4 1 = Inr (s, g') \<and> \<not> full (delayLine s) \<and>
          out ! 1 = (last_sample s + buffer s ! bufferCounter s) / 2) \<and>
     (\<exists>s. string_run 1000 real 2 4 3 = Inr (s, g') \<and> \<not> full (delayLine s))"
proof -
  have d: "(3 :: int) < 200" by simp
  have f: "(0 :: real) < 2 \<and> (0 :: real) < 4 \<and> 1 \<le> py_int (binary64 (4 / 2)) \<and>
      py_int (binary64 (4 / 2)) < 2 ^ 60 \<and> py_int (binary64 (4 / 2)) \<le> int 1000"
    by (simp add: quotient_2 py_int_def)
  from delay_line_never_full [OF d, of 2 4 1000 real] f obtain out g' where
    r: "getBaseStringSound 1000 real 2 3 4 = Inr (out, g')" by blast
  have i: "(1 :: nat) \<le> nat 3" "(1 :: nat) < nat 3" "(3 :: nat) \<le> nat 3" by simp_all
  from delay_line_never_full [OF d, of 2 4 1000 real] r i(1,2) have
    "\<exists>s. string_run 1000 real 2 4 1 = Inr (s, g') \<and> \<not> full (delayLine s) \<and>
          out ! 1 = (last_sample s + buffer s ! bufferCounter s) / 2" by blast
  moreover from delay_line_never_full [OF d, of 2 4 1000 real] r i(3) have
    "\<exists>s. string_run 1000 real 2 4 3 = Inr (s, g') \<and> \<not> full (delayLine s)" by blast
  ultimately show ?thesis using r by blast
qed

section \<open>C6: a note shorter than attack, decay and release\<close>

text \<open>
  C6. When the sustain length is negative, \<open>Trumpet.getNote\<close> does what the first
  two stages do and nothing else: it is the high-pass filter, with the coefficient
  \<open>alpha\<close>, applied to the harmonic sum over the time axis, and no sample is scaled.
  For a duration of one sample or more this signal is returned; for duration 0 the filter's
  \<open>newSamples[0] = samples[0]\<close> raises, with or without envelope.
\<close>

theorem short_note_unscaled:
  assumes "sustainLength duration sampleRate < 0" and "0 < frequency" and "0 < sampleRate"
  shows "Trumpet_getNote frequency duration sampleRate =
           filtered frequency duration sampleRate \<and>
         (1 \<le> duration \<longrightarrow>
            (\<exists>time alpha hp.
               linspace 0 (of_int duration / sampleRate) duration = Inr time \<and>
               filter_alpha frequency sampleRate = Inr alpha \<and>
               highpass alpha (harmonics frequency time) = Inr hp \<and>
               Trumpet_getNote frequency duration sampleRate = Inr hp))"
proof
  from assms(1) show eq: "Trumpet_getNote frequency duration sampleRate =
           filtered frequency duration sampleRate"
    by (simp add: Trumpet_getNote_def split: sum.splits)
  show "1 \<le> duration \<longrightarrow>
            (\<exists>time alpha hp.
               linspace 0 (of_int duration / sampleRate) duration = Inr time \<and>
               filter_alpha frequency sampleRate = Inr alpha \<and>
               highpass alpha (harmonics frequency time) = Inr hp \<and>
               Trumpet_getNote frequency duration sampleRate = Inr hp)"
  proof
    assume "1 \<le> duration"
    from filtered_Inr [OF assms(2,3) this] eq show "\<exists>time alpha hp.
               linspace 0 (of_int duration / sampleRate) duration = Inr time \<and>
               filter_alpha frequency sampleRate = Inr alpha \<and>
               highpass alpha (harmonics frequency time) = Inr hp \<and>
               Trumpet_getNote frequency duration sampleRate = Inr hp"
      by auto
  qed
qed

theorem short_note_unscaled_witness:
  "Trumpet_getNote 440 1000 44100 = filtered 440 1000 44100 \<and>
   (\<exists>time alpha hp.
               linspace 0 (of_int 1000 / 44100) 1000 = Inr time \<and>
               filter_alpha 440 44100 = Inr alpha \<and>
               highpass alpha (harmonics 440 time) = Inr hp \<and>
               Trumpet_getNote 440 1000 44100 = Inr hp)"
proof -
  have s: "sustainLength 1000 44100 < 0" by (simp add: sustainLength_def lengths_44100)
  have "(0 :: real) < 440" and "(0 :: real) < 44100" and "(1 :: int) \<le> 1000" by simp_all
  with short_note_unscaled [OF s, of 440] show ?thesis by blast
qed

section \<open>C7: the envelope of a long note\<close>




section \<open>C8: duplicateChannel\<close>

lemma duplicateChannel_fold:
  "foldl (\<lambda>newSamples sample.
              let sample32 = float32 (sample / 2) in newSamples @ [(sample32, sample32)])
           acc channel
   = acc @ map (\<lambda>sample. (float32 (sample / 2), float32 (sample / 2))) channel"
  by (induction channel arbitrary: acc) (simp_all add: Let_def)

lemma duplicateChannel_map:
  "duplicateChannel float32 channel =
     map (\<lambda>sample. (float32 (sample / 2), float32 (sample / 2))) channel"
  by (simp add: duplicateChannel_def duplicateChannel_fold)

text \<open>
  The rounding to single precision at two values: \<open>1/2 + 2^-26\<close> lies a quarter of
  a unit in the last place above \<open>1/2\<close> and is rounded down to it; \<open>1/2\<close> is kept.
\<close>

lemma binary32_example: "binary32 (1 / 2 + 1 / 2 ^ 26) = 1 / 2"
proof -
  let ?x = "1 / 2 + 1 / 2 ^ 26 :: real"
  have e: "\<lfloor>log 2 \<bar>?x\<bar>\<rfloor> = - 1"
    by (subst floor_log_eq_powr_iff) (simp_all add: powr_minus_divide)
  have u: "2 powr (of_int (max (- 1) (- 126)) - 23) = (1 / 2 ^ 24 :: real)"
    by (simp add: powr_minus_divide)
  have q: "?x / (1 / 2 ^ 24) = 8388608 + 1 / 4" by simp
  have r: "round_half_even (8388608 + 1 / 4) = 8388608"
  proof -
    have "\<lfloor>8388608 + 1 / 4 :: real\<rfloor> = 8388608" by (simp add: floor_eq_iff)
    then show ?thesis by (simp add: round_half_even_def Let_def)
  qed
  have nz: "?x \<noteq> 0" by simp
  show ?thesis
    unfolding binary32_def Let_def e u q r using nz by simp
qed

lemma binary32_half: "binary32 (1 / 2) = 1 / 2"
proof -
  have e: "\<lfloor>log 2 \<bar>1 / 2 :: real\<bar>\<rfloor> = - 1"
    by (subst floor_log_eq_powr_iff) (simp_all add: powr_minus_divide)
  have u: "2 powr (of_int (max (- 1) (- 126)) - 23) = (1 / 2 ^ 24 :: real)"
    by (simp add: powr_minus_divide)
  have q: "(1 / 2) / (1 / 2 ^ 24) = (8388608 :: real)" by simp
  have r: "round_half_even 8388608 = 8388608"
    by (simp add: round_half_even_def Let_def)
  show ?thesis
    unfolding binary32_def Let_def e u q r by simp
qed

text \<open>
  C8 as stated fails: for the one-sample signal \<open>[1 + 2^-25]\<close> (a double) both
  channels are \<open>np.float32(0.5 + 2^-26) = 0.5\<close>, which is not
  \<open>monoSignal[0] / 2\<close>.
\<close>

theorem duplicateChannel_float32_counterexample:
  "duplicateChannel binary32 [1 + 1 / 2 ^ 25] = [(1 / 2, 1 / 2)] \<and>
   (1 + 1 / 2 ^ 25) / 2 \<noteq> (1 / 2 :: real)"
proof -
  have h: "(1 + 1 / 2 ^ 25) / 2 = (1 / 2 + 1 / 2 ^ 26 :: real)" by simp
  have "duplicateChannel binary32 [1 + 1 / 2 ^ 25] = [(1 / 2, 1 / 2)]"
    unfolding duplicateChannel_map list.map h binary32_example by (rule refl)
  moreover have "(1 + 1 / 2 ^ 25) / 2 \<noteq> (1 / 2 :: real)" by simp
  ultimately show ?thesis by (rule conjI)
qed

text \<open>
  C8, amended. For every mono signal \<open>duplicateChannel\<close> returns a sequence of the
  same length in which the left channel of frame \<open>i\<close> equals the right one, and both
  are \<open>np.float32(monoSignal[i] / 2)\<close>: half the sample, narrowed to single
  precision.
\<close>

theorem duplicateChannel_frames:
  "length (duplicateChannel float32 channel) = length channel \<and>
   (\<forall>i < length channel.
      fst (duplicateChannel float32 channel ! i) = snd (duplicateChannel float32 channel ! i) \<and>
      fst (duplicateChannel float32 channel ! i) = float32 (channel ! i / 2))"
  by (simp add: duplicateChannel_map)

theorem duplicateChannel_frames_witness:
  "length (duplicateChannel binary32 [3, 1]) = 2 \<and>
   fst (duplicateChannel binary32 [3, 1] ! 1) = snd (duplicateChannel binary32 [3, 1] ! 1) \<and>
   fst (duplicateChannel binary32 [3, 1] ! 1) = 1 / 2"
proof -
  have l: "(1 :: nat) < length [3, 1 :: real]" by simp
  have n: "[3, 1 :: real] ! 1 / 2 = 1 / 2" by simp
  from duplicateChannel_frames [of binary32 "[3, 1]"] l have
    "length (duplicateChannel binary32 [3, 1]) = length [3, 1 :: real]"
    "fst (duplicateChannel binary32 [3, 1] ! 1) = snd (duplicateChannel binary32 [3, 1] ! 1)"
    "fst (duplicateChannel binary32 [3, 1] ! 1) = binary32 ([3, 1] ! 1 / 2)" by blast+
  then show ?thesis unfolding n binary32_half by simp
qed

section \<open>C9: two runs with the same arguments\<close>

lemma noise_buffer_agree:
  assumes "\<forall>k < nat (py_int (binary64 (sr / f))). ga k = gb k"
  shows "map_sum id fst (noise_buffer cap ga f sr) = map_sum id fst (noise_buffer cap gb f sr)"
  using assms
  by (simp add: noise_buffer_def truediv_double_def int_of_double_def standard_normal_def)

lemma string_run_agree:
  assumes "\<forall>k < nat (py_int (binary64 (sr / f))). ga k = gb k"
  shows "map_sum id fst (string_run cap ga f sr n) = map_sum id fst (string_run cap gb f sr n)"
proof -
  from noise_buffer_agree [OF assms, where cap = cap] show ?thesis
    by (cases "noise_buffer cap ga f sr"; cases "noise_buffer cap gb f sr")
      (auto simp: string_run_def split: sum.splits)
qed

lemma getBaseStringSound_agree:
  assumes "\<forall>k < nat (py_int (binary64 (sr / f))). ga k = gb k"
  shows "returned (getBaseStringSound cap ga f d sr) = returned (getBaseStringSound cap gb f d sr)"
proof -
  from string_run_agree [OF assms, where cap = cap and n = "nat d"] show ?thesis
    by (cases "string_run cap ga f sr (nat d)"; cases "string_run cap gb f sr (nat d)")
      (auto simp: getBaseStringSound_def returned_def)
qed

lemma guitar_other_draws:
  "returned (getNote AcousticGuitar 1000 (\<lambda>k. 1) 2 3 4) = Inr [1, 1, 1]"
  by (simp add: returned_def AcousticGuitar_getNote_def getBaseStringSound_def string_run_def
      noise_buffer_def truediv_double_def int_of_double_def quotient_2 standard_normal_def
      py_int_def initial_def Queue_def
      eval_nat_numeral upt_conv_Cons tick_def feedback_def full_def put_def)

text \<open>
  C9. Two calls of \<open>getNote\<close> with the same arguments on the same machine, in the
  states \<open>ga\<close> and \<open>gb\<close> of the random generator, return the same result: for the tone and the trumpet
  whatever the two states are, and for every instrument when the two states agree on the
  draws the ring buffer takes (identical states in particular). With other draws the
  guitar returns other samples, as \<open>guitar_example\<close> and \<open>guitar_other_draws\<close>
  show.
\<close>

theorem getNote_deterministic:
  "(instr \<noteq> AcousticGuitar \<longrightarrow>
      returned (getNote instr capacity ga frequency duration sampleRate) =
      returned (getNote instr capacity gb frequency duration sampleRate)) \<and>
   ((\<forall>k < nat (py_int (binary64 (sampleRate / frequency))). ga k = gb k) \<longrightarrow>
      returned (getNote instr capacity ga frequency duration sampleRate) =
      returned (getNote instr capacity gb frequency duration sampleRate))"
proof -
  have pure: "returned (getNote instr capacity ga frequency duration sampleRate) =
      returned (getNote instr capacity gb frequency duration sampleRate)"
    if "instr \<noteq> AcousticGuitar"
    using that by (cases instr) (auto simp: returned_def split: sum.splits)
  have "returned (getNote instr capacity ga frequency duration sampleRate) =
      returned (getNote instr capacity gb frequency duration sampleRate)"
    if "\<forall>k < nat (py_int (binary64 (sampleRate / frequency))). ga k = gb k"
  proof (cases "instr = AcousticGuitar")
    case True
    with getBaseStringSound_agree [OF that] show ?thesis
      by (simp add: AcousticGuitar_getNote_def)
  next
    case False
    then show ?thesis by (rule pure)
  qed
  with pure show ?thesis by blast
qed

theorem getNote_deterministic_witness:
  "returned (getNote Trumpet 1000 real 440 1000 44100) =
     returned (getNote Trumpet 1000 (\<lambda>k. 1) 440 1000 44100) \<and>
   returned (getNote AcousticGuitar 1000 real 2 3 4) =
     returned (getNote AcousticGuitar 1000 (\<lambda>k. if k < 2 then real k else 7) 2 3 4)"
proof -
  have "py_int (binary64 (4 / 2)) = 2" by (simp add: quotient_2 py_int_def)
  then have "\<forall>k < nat (py_int (binary64 (4 / 2))). real k = (if k < 2 then real k else 7)" by simp
  with getNote_deterministic [where instr = AcousticGuitar and capacity = 1000 and ga = real
      and gb = "\<lambda>k. if k < 2 then real k else 7" and frequency = 2 and duration = 3
      and sampleRate = 4]
    getNote_deterministic [where instr = Trumpet and capacity = 1000 and ga = real and gb = "\<lambda>k. 1"
      and frequency = 440 and duration = 1000 and sampleRate = 44100]
  show ?thesis by blast
qed

section \<open>C10: the first sample of the trumpet\<close>





end
